theory Spec2Isabelle
  imports Complex_Main
begin

section \<open>Strings as the code sees them\<close>

text \<open>
  A JavaScript string is modelled as a \<^typ>\<open>string\<close> whose characters are the code units
  U+0000 .. U+00FF. In that range \<open>String.prototype.trim\<close> and the regular expression
  class \<open>\s\<close> agree on the white space: TAB, LF, VT, FF, CR, SPACE and NBSP.
\<close>

definition isWhiteSpace :: "char \<Rightarrow> bool" where
  "isWhiteSpace c \<longleftrightarrow> (of_char c :: nat) \<in> {9, 10, 11, 12, 13, 32, 160}"

text \<open>The line terminators that the regular expression atom \<open>.\<close> refuses: LF and CR.\<close>

definition isLineTerminator :: "char \<Rightarrow> bool" where
  "isLineTerminator c \<longleftrightarrow> (of_char c :: nat) \<in> {10, 13}"

text \<open>\<open>trim\<close> strips the white space at both ends.\<close>

definition trimEnd :: "string \<Rightarrow> string" where
  "trimEnd s = rev (dropWhile isWhiteSpace (rev s))"

definition trim :: "string \<Rightarrow> string" where
  "trim s = trimEnd (dropWhile isWhiteSpace s)"

text \<open>
  \<open>toLowerCase\<close> on the modelled range: A-Z and the Latin-1 capitals U+00C0 .. U+00DE
  (the multiplication sign U+00D7 apart) move up by 32.
\<close>

definition lowerChar :: "char \<Rightarrow> char" where
  "lowerChar c = (let n = (of_char c :: nat) in
     if (65 \<le> n \<and> n \<le> 90) \<or> (192 \<le> n \<and> n \<le> 222 \<and> n \<noteq> 215)
     then char_of (n + 32) else c)"

definition toLowerCase :: "string \<Rightarrow> string" where
  "toLowerCase s = map lowerChar s"

text \<open>\<open>str.replace(/\s+/g, ' ')\<close>: every maximal run of white space becomes one space.\<close>

function collapseWhitespace :: "string \<Rightarrow> string" where
  "collapseWhitespace [] = []"
| "collapseWhitespace (c # cs) =
     (if isWhiteSpace c then CHR '' '' # collapseWhitespace (dropWhile isWhiteSpace cs)
      else c # collapseWhitespace cs)"
  by pat_completeness auto
termination
  by (relation "measure length") (auto simp: less_Suc_eq_le length_dropWhile_le)

text \<open>\<open>str.includes(sub)\<close>: \<open>sub\<close> occurs in \<open>str\<close> as a contiguous block.\<close>

fun startsWith :: "string \<Rightarrow> string \<Rightarrow> bool" where
  "startsWith s [] = True"
| "startsWith [] (p # ps) = False"
| "startsWith (c # cs) (p # ps) = (c = p \<and> startsWith cs ps)"

fun includes_str :: "string \<Rightarrow> string \<Rightarrow> bool" where
  "includes_str [] sub = startsWith [] sub"
| "includes_str (c # cs) sub = (startsWith (c # cs) sub \<or> includes_str cs sub)"

text \<open>\<open>Array.prototype.join\<close> on strings.\<close>

fun joinWith :: "string \<Rightarrow> string list \<Rightarrow> string" where
  "joinWith sep [] = []"
| "joinWith sep [x] = x"
| "joinWith sep (x # y # ys) = x @ sep @ joinWith sep (y # ys)"

text \<open>Decimal digits of a natural number, as \<open>Number.prototype.toString\<close> prints them.\<close>

definition digitChar :: "nat \<Rightarrow> char" where
  "digitChar d = char_of (48 + d)"

function showNat :: "nat \<Rightarrow> string" where
  "showNat n = (if n < 10 then [digitChar n] else showNat (n div 10) @ [digitChar (n mod 10)])"
  by pat_completeness auto
termination
  by (relation "measure id") auto

declare showNat.simps [simp del]

definition numberToString :: "int \<Rightarrow> string" where
  "numberToString i = (if i < 0 then CHR ''-'' # showNat (nat (- i)) else showNat (nat i))"


section \<open>Values and their string coercion\<close>

text \<open>
  The values that travel through the executor: what \<open>JSON.parse\<close> returns, what the
  socket payload carries, and \<open>undefined\<close> for an absent field. Numbers are the integers
  that JavaScript prints in plain decimal notation.
\<close>

datatype jsval =
    JUndefined
  | JNull
  | JBool bool
  | JNum int
  | JStr string
  | JArr "jsval list"
  | JObj "(string \<times> jsval) list"

text \<open>
  \<open>String(v)\<close>. An array is the comma-join of its elements, where \<open>null\<close> and
  \<open>undefined\<close> elements give the empty string; nested arrays flatten; an object is
  \<open>[object Object]\<close>.
\<close>

fun jsString :: "jsval \<Rightarrow> string" where
  "jsString JUndefined = ''undefined''"
| "jsString JNull = ''null''"
| "jsString (JBool b) = (if b then ''true'' else ''false'')"
| "jsString (JNum n) = numberToString n"
| "jsString (JStr s) = s"
| "jsString (JArr xs) =
     joinWith '','' (map (\<lambda>x. if x = JNull \<or> x = JUndefined then [] else jsString x) xs)"
| "jsString (JObj kvs) = ''[object Object]''"


section \<open>Output comparison (\<open>CodeExecutionService.compareOutputs\<close>)\<close>

definition normalize :: "jsval \<Rightarrow> string" where
  "normalize str = collapseWhitespace (toLowerCase (trim (jsString str)))"

definition compareOutputs :: "jsval \<Rightarrow> jsval \<Rightarrow> bool" where
  "compareOutputs actual expected \<longleftrightarrow> normalize actual = normalize expected"

text \<open>
  The reading of the specification's words, to compare the code with: two texts are
  equal up to case and white space when their words (the maximal blocks free of white
  space), in lower case, are the same lists.
\<close>

function wordsOf :: "string \<Rightarrow> string list" where
  "wordsOf s =
     (case dropWhile isWhiteSpace s of
        [] \<Rightarrow> []
      | c # cs \<Rightarrow> (c # takeWhile (\<lambda>x. \<not> isWhiteSpace x) cs)
                 # wordsOf (dropWhile (\<lambda>x. \<not> isWhiteSpace x) cs))"
  by pat_completeness auto
termination
proof (relation "measure length", goal_cases)
  case 1
  show ?case by simp
next
  case (2 s c cs)
  have "length (dropWhile (\<lambda>x. \<not> isWhiteSpace x) cs) \<le> length cs"
    by (rule length_dropWhile_le)
  moreover have "length (c # cs) \<le> length s"
    using 2 length_dropWhile_le [of isWhiteSpace s] by simp
  ultimately show ?case by simp
qed

declare wordsOf.simps [simp del]

definition equalUpToCaseAndSpace :: "string \<Rightarrow> string \<Rightarrow> bool" where
  "equalUpToCaseAndSpace a b \<longleftrightarrow> map toLowerCase (wordsOf a) = map toLowerCase (wordsOf b)"


section \<open>The sandboxed executor (\<open>CodeExecutionService\<close>)\<close>

text \<open>
  What a spawned child process does is not decided by the service: it is an input of the
  model. A child either fails to spawn (the \<open>error\<close> event, with the runtime's message)
  or closes (the \<open>close\<close> event) with an exit code, its standard output and its standard
  error. The exit code is \<open>None\<close> when the child was killed by a signal, which is what
  the \<open>timeout\<close> option of \<open>spawn\<close> does. The text of the wrapper file (the detected
  function name, the serialised input) reaches the result only through what the child
  prints, so it is not modelled. Each execution is followed up to the settling of its
  promise: a child that never ends gives no event and is outside the model, and so is
  whatever the runtime delivers to the handlers of a child after its promise has settled.
\<close>

datatype childEvent =
    SpawnError string
  | Close "int option" string string

record testCase =
  tc_input :: jsval
  tc_expectedOutput :: jsval

record executionResult =
  r_testCase :: string
  r_input :: jsval
  r_expectedOutput :: jsval
  r_actualOutput :: jsval
  r_passed :: bool
  r_executionTime :: int
  r_memoryUsage :: nat
  r_error :: "string option"

text \<open>
  Everything the environment contributes to the execution of one test case: the clock
  readings that name the temporary files, whether \<open>fs.writeFileSync\<close> throws (and with
  which message), the compiler child, the program child, and the wall-clock time that
  \<open>executeSingleTest\<close> measures.
\<close>

record world =
  nowFile :: nat
  nowExe :: nat
  writeError :: "string option"
  compileChild :: childEvent
  runChild :: childEvent
  elapsed :: int

text \<open>The temporary directory, as the set of the file names it holds.\<close>

type_synonym tempDir = "string set"

text \<open>
  \<open>output.match(/ACTUAL_OUTPUT:\s*(.+)/)\<close>: the capture of the leftmost match.
  After the marker, \<open>\s*\<close> is greedy; when the rest after the white space is not empty
  its first character is no line terminator and the capture runs to the end of that line.
  When only white space follows the marker, backtracking leaves the capture the last
  character that is no line terminator, if there is one.
\<close>

definition captureAfterMarker :: "string \<Rightarrow> string option" where
  "captureAfterMarker rest =
     (case dropWhile isWhiteSpace rest of
        c # cs \<Rightarrow> Some (takeWhile (\<lambda>x. \<not> isLineTerminator x) (c # cs))
      | [] \<Rightarrow> (case dropWhile isLineTerminator (rev rest) of
                 [] \<Rightarrow> None
               | c # cs \<Rightarrow> Some [c]))"

fun actualOutputMatch :: "string \<Rightarrow> string option" where
  "actualOutputMatch [] = None"
| "actualOutputMatch (c # cs) =
     (if startsWith (c # cs) ''ACTUAL_OUTPUT:''
      then (case captureAfterMarker (drop 14 (c # cs)) of
              Some g \<Rightarrow> Some g
            | None \<Rightarrow> actualOutputMatch cs)
      else actualOutputMatch cs)"

text \<open>
  A promise settles in one of two ways: \<open>Inl message\<close> is a rejection with an \<open>Error\<close>
  of that message, \<open>Inr output\<close> is \<open>resolve({ output })\<close>.
\<close>

type_synonym settled = "string + jsval"

text \<open>\<open>new Error(error || 'Execution failed')\<close> for a child that did not exit with 0.\<close>

definition executionFailed :: "string \<Rightarrow> string" where
  "executionFailed err = (if err = [] then ''Execution failed'' else err)"

text \<open>
  The \<open>close\<close> handler's reading of a JavaScript child's standard output: the text after
  the marker if the marker matches, otherwise the whole output, parsed as JSON; when
  \<open>JSON.parse\<close> throws, the trimmed output as a string. \<open>JSON.parse\<close> is the runtime's:
  the parameter \<open>parse\<close>, \<open>None\<close> where it throws.
\<close>

definition readJavaScriptOutput :: "(string \<Rightarrow> jsval option) \<Rightarrow> string \<Rightarrow> jsval" where
  "readJavaScriptOutput parse output =
     (case (case actualOutputMatch output of
              Some g \<Rightarrow> parse (trim g)
            | None \<Rightarrow> parse (trim output)) of
        Some parsedOutput \<Rightarrow> parsedOutput
      | None \<Rightarrow> JStr (trim output))"

definition readPythonOutput :: "(string \<Rightarrow> jsval option) \<Rightarrow> string \<Rightarrow> jsval" where
  "readPythonOutput parse output =
     (case parse (trim output) of
        Some parsedOutput \<Rightarrow> parsedOutput
      | None \<Rightarrow> JStr (trim output))"

definition executeJavaScript ::
  "(string \<Rightarrow> jsval option) \<Rightarrow> tempDir \<Rightarrow> world \<Rightarrow> string \<Rightarrow> testCase \<Rightarrow> tempDir \<times> settled" where
  "executeJavaScript parse dir w code tc =
     (let tempFile = ''test_'' @ showNat (nowFile w) @ ''.js'' in
      case writeError w of
        Some m \<Rightarrow> (dir, Inl m)
      | None \<Rightarrow>
          (case runChild w of
             SpawnError m \<Rightarrow> (insert tempFile dir - {tempFile}, Inl m)
           | Close exitCode output err \<Rightarrow>
               (insert tempFile dir - {tempFile},
                if exitCode \<noteq> Some 0 then Inl (executionFailed err)
                else Inr (readJavaScriptOutput parse output))))"

definition executePython ::
  "(string \<Rightarrow> jsval option) \<Rightarrow> tempDir \<Rightarrow> world \<Rightarrow> string \<Rightarrow> testCase \<Rightarrow> tempDir \<times> settled" where
  "executePython parse dir w code tc =
     (let tempFile = ''test_'' @ showNat (nowFile w) @ ''.py'' in
      case writeError w of
        Some m \<Rightarrow> (dir, Inl m)
      | None \<Rightarrow>
          (case runChild w of
             SpawnError m \<Rightarrow> (insert tempFile dir - {tempFile}, Inl m)
           | Close exitCode output err \<Rightarrow>
               (insert tempFile dir - {tempFile},
                if exitCode \<noteq> Some 0 then Inl (executionFailed err)
                else Inr (readPythonOutput parse output))))"

text \<open>
  \<open>inputArray.map(num => num.toString()).join(',')\<close>. It throws a \<open>TypeError\<close> when the
  input is no array or an element is \<open>null\<close> or \<open>undefined\<close>; the messages are V8's.
\<close>

fun cppInputString :: "jsval \<Rightarrow> string + string" where
  "cppInputString (JArr xs) =
     (case find (\<lambda>x. x = JNull \<or> x = JUndefined) xs of
        Some JUndefined \<Rightarrow> Inl ''Cannot read properties of undefined (reading 'toString')''
      | Some _ \<Rightarrow> Inl ''Cannot read properties of null (reading 'toString')''
      | None \<Rightarrow> Inr (joinWith '','' (map jsString xs)))"
| "cppInputString JNull = Inl ''Cannot read properties of null (reading 'map')''"
| "cppInputString JUndefined = Inl ''Cannot read properties of undefined (reading 'map')''"
| "cppInputString _ = Inl ''inputArray.map is not a function''"

text \<open>
  The C++ path compiles first. The compiler leaves the binary exactly when it exits
  with 0; a failed compilation rejects with \<open>Compilation failed: \<close> and the compiler's
  standard error, after removing the source file.
\<close>

definition executeCpp :: "tempDir \<Rightarrow> world \<Rightarrow> string \<Rightarrow> testCase \<Rightarrow> tempDir \<times> settled" where
  "executeCpp dir w code tc =
     (let tempFile = ''test_'' @ showNat (nowFile w) @ ''.cpp'';
          executableFile = ''test_'' @ showNat (nowExe w) in
      case cppInputString (tc_input tc) of
        Inl m \<Rightarrow> (dir, Inl m)
      | Inr inputString \<Rightarrow>
          (case writeError w of
             Some m \<Rightarrow> (dir, Inl m)
           | None \<Rightarrow>
               (case compileChild w of
                  SpawnError m \<Rightarrow> (insert tempFile dir - {tempFile}, Inl m)
                | Close compileCode compileOutput compileError \<Rightarrow>
                    if compileCode \<noteq> Some 0
                    then (insert tempFile dir - {tempFile},
                          Inl (''Compilation failed: '' @ compileError))
                    else
                      (case runChild w of
                         SpawnError m \<Rightarrow>
                           (insert executableFile (insert tempFile dir)
                              - {tempFile} - {executableFile}, Inl m)
                       | Close exitCode output err \<Rightarrow>
                           (insert executableFile (insert tempFile dir)
                              - {tempFile} - {executableFile},
                            if exitCode \<noteq> Some 0 then Inl (executionFailed err)
                            else Inr (JStr (trim output)))))))"

text \<open>The \<open>switch (language.toLowerCase())\<close> of \<open>executeSingleTest\<close>.\<close>

definition dispatchLanguage ::
  "(string \<Rightarrow> jsval option) \<Rightarrow> tempDir \<Rightarrow> world \<Rightarrow> string \<Rightarrow> string \<Rightarrow> testCase \<Rightarrow> tempDir \<times> settled" where
  "dispatchLanguage parse dir w code language tc =
     (if toLowerCase language = ''javascript'' then executeJavaScript parse dir w code tc
      else if toLowerCase language = ''python'' then executePython parse dir w code tc
      else if toLowerCase language = ''c++'' then executeCpp dir w code tc
      else (dir, Inl (''Unsupported language: '' @ language)))"

definition executeSingleTest ::
  "(string \<Rightarrow> jsval option) \<Rightarrow> tempDir \<Rightarrow> world \<Rightarrow> string \<Rightarrow> string \<Rightarrow> testCase \<Rightarrow> nat
     \<Rightarrow> tempDir \<times> executionResult" where
  "executeSingleTest parse dir w code language tc testNumber =
     (case dispatchLanguage parse dir w code language tc of
        (dir', Inr output) \<Rightarrow>
          (dir', \<lparr> r_testCase = ''Test Case '' @ showNat testNumber,
                   r_input = tc_input tc,
                   r_expectedOutput = tc_expectedOutput tc,
                   r_actualOutput = output,
                   r_passed = compareOutputs output (tc_expectedOutput tc),
                   r_executionTime = elapsed w,
                   r_memoryUsage = 0,
                   r_error = None \<rparr>)
      | (dir', Inl message) \<Rightarrow>
          (dir', \<lparr> r_testCase = ''Test Case '' @ showNat testNumber,
                   r_input = tc_input tc,
                   r_expectedOutput = tc_expectedOutput tc,
                   r_actualOutput = JStr ''Execution Error'',
                   r_passed = False,
                   r_executionTime = elapsed w,
                   r_memoryUsage = 0,
                   r_error = Some message \<rparr>))"

text \<open>
  The loop of \<open>executeTests\<close>: \<open>i\<close> runs over the indices of \<open>testCases\<close>, each result is
  pushed onto \<open>results\<close>. \<open>worlds i\<close> is what the environment does during the execution
  of the test case at index \<open>i\<close>.
\<close>

function executeLoop ::
  "(string \<Rightarrow> jsval option) \<Rightarrow> (nat \<Rightarrow> world) \<Rightarrow> string \<Rightarrow> string \<Rightarrow> testCase list
     \<Rightarrow> nat \<Rightarrow> tempDir \<Rightarrow> executionResult list \<Rightarrow> tempDir \<times> executionResult list" where
  "executeLoop parse worlds code language testCases i dir results =
     (if i < length testCases
      then (case executeSingleTest parse dir (worlds i) code language (testCases ! i) (i + 1) of
              (dir', result) \<Rightarrow>
                executeLoop parse worlds code language testCases (i + 1) dir' (results @ [result]))
      else (dir, results))"
  by pat_completeness auto
termination
  by (relation "measure (\<lambda>(parse, worlds, code, language, testCases, i, dir, results).
        length testCases - i)") auto

declare executeLoop.simps [simp del]

definition executeTests ::
  "(string \<Rightarrow> jsval option) \<Rightarrow> (nat \<Rightarrow> world) \<Rightarrow> tempDir \<Rightarrow> string \<Rightarrow> string \<Rightarrow> testCase list
     \<Rightarrow> tempDir \<times> executionResult list" where
  "executeTests parse worlds dir code language testCases =
     executeLoop parse worlds code language testCases 0 dir []"


text \<open>
  Predicates on the environment, for stating the properties below. The runtime's own
  error messages (of a failed spawn, of a failed write) are never empty; a compilation
  fails when the input could be rendered, the source file was written, and the compiler
  closed with a code other than 0.
\<close>

definition runtimeMessagesNonEmpty :: "world \<Rightarrow> bool" where
  "runtimeMessagesNonEmpty w \<longleftrightarrow>
     writeError w \<noteq> Some [] \<and> compileChild w \<noteq> SpawnError [] \<and> runChild w \<noteq> SpawnError []"

definition compilationFails :: "world \<Rightarrow> testCase \<Rightarrow> bool" where
  "compilationFails w tc \<longleftrightarrow>
     \<not> isl (cppInputString (tc_input tc)) \<and> writeError w = None \<and>
     (case compileChild w of
        SpawnError m \<Rightarrow> False
      | Close compileCode compileOutput compileError \<Rightarrow> compileCode \<noteq> Some 0)"

definition compilerStderr :: "world \<Rightarrow> string" where
  "compilerStderr w =
     (case compileChild w of
        SpawnError m \<Rightarrow> []
      | Close compileCode compileOutput compileError \<Rightarrow> compileError)"

definition compilationSucceeds :: "world \<Rightarrow> bool" where
  "compilationSucceeds w \<longleftrightarrow>
     (case compileChild w of
        SpawnError m \<Rightarrow> False
      | Close compileCode compileOutput compileError \<Rightarrow> compileCode = Some 0)"


section \<open>The hint controller of the candidate's page (\<open>CandidateCoding\<close>)\<close>

record problem =
  p_id :: nat
  p_title :: string

definition problems :: "problem list" where
  "problems =
     [\<lparr> p_id = 1, p_title = ''3Sum (LeetCode #15)'' \<rparr>,
      \<lparr> p_id = 2, p_title = ''Product of Array Except Self (LeetCode #238)'' \<rparr>]"

text \<open>
  The part of the component's state that the hint rules read and write. Times are
  \<open>Date.getTime()\<close> values, in milliseconds.
\<close>

record candidateState =
  currentProblem :: nat
  editorCode :: string
  hintTier :: nat
  idleStartTime :: "int option"
  syntaxErrors :: nat

definition initialCandidateState :: candidateState where
  "initialCandidateState =
     \<lparr> currentProblem = 0, editorCode = [], hintTier = 0, idleStartTime = None,
       syntaxErrors = 0 \<rparr>"

text \<open>
  \<open>generateHint(tier)\<close> reads \<open>problems[currentProblem].title\<close>; for an index outside
  the array that read throws, which is \<open>None\<close> here.
\<close>

definition generateHint :: "nat \<Rightarrow> nat \<Rightarrow> string option" where
  "generateHint current tier =
     (if current < length problems then
        (let title = p_title (problems ! current) in
         if includes_str title ''3Sum'' then
           Some (if tier = 1 then
                   ''Can you think of a data structure that helps with fast lookups and avoiding duplicates?''
                 else if tier = 2 then
                   ''A hash set can help you track which numbers you've seen already. Also consider sorting the array first.''
                 else if tier = 3 then
                   ''Try sorting the array first, then for each element, use two pointers to find pairs that sum to the negative of that element.''
                 else [])
         else if includes_str title ''Product of Array Except Self'' then
           Some (if tier = 1 then
                   ''Think about how you can calculate the product of all elements except the current one without using division.''
                 else if tier = 2 then
                   ''Consider using prefix and suffix products. Calculate the product of all elements to the left and right of each position.''
                 else if tier = 3 then
                   ''Use two passes: first pass calculates left products, second pass calculates right products and combines them.''
                 else [])
         else Some [])
      else None)"

definition triggerHint :: "candidateState \<Rightarrow> candidateState" where
  "triggerHint s =
     (if hintTier s < 3 then
        (let newTier = hintTier s + 1 in
         case generateHint (currentProblem s) newTier of
           None \<Rightarrow> s
         | Some newHint \<Rightarrow>
             if newHint \<noteq> []
             then s\<lparr> hintTier := newTier, idleStartTime := None, syntaxErrors := 0 \<rparr>
             else s)
      else s)"

text \<open>The three rules of \<open>checkForHint\<close>, in the order in which it tries them.\<close>

definition idleRule :: "int \<Rightarrow> candidateState \<Rightarrow> bool" where
  "idleRule now s \<longleftrightarrow>
     (case idleStartTime s of
        None \<Rightarrow> False
      | Some t \<Rightarrow> now - t > 2 * 60 * 1000 \<and> hintTier s < 3)"

definition syntaxErrorRule :: "candidateState \<Rightarrow> bool" where
  "syntaxErrorRule s \<longleftrightarrow> syntaxErrors s \<ge> 3 \<and> hintTier s < 3"

definition nestedLoopRule :: "candidateState \<Rightarrow> bool" where
  "nestedLoopRule s \<longleftrightarrow>
     includes_str (editorCode s) ''for'' \<and> includes_str (editorCode s) ''for''
       \<and> includes_str (editorCode s) ''for'' \<and> hintTier s < 3"

definition checkForHint :: "int \<Rightarrow> candidateState \<Rightarrow> candidateState" where
  "checkForHint now s =
     (if idleRule now s then triggerHint s
      else if syntaxErrorRule s then triggerHint s
      else if nestedLoopRule s then triggerHint s
      else s)"

text \<open>
  \<open>moveToNextProblem\<close>: on the last problem it calls \<open>handleCompleteInterview\<close>, which
  touches none of the fields modelled here. The analysis, the test results and the
  stuck time, which it also resets, are not tracked.
\<close>

definition moveToNextProblem :: "candidateState \<Rightarrow> candidateState" where
  "moveToNextProblem s =
     (if int (currentProblem s) < int (length problems) - 1
      then s\<lparr> currentProblem := currentProblem s + 1, editorCode := [], hintTier := 0,
              syntaxErrors := 0, idleStartTime := None \<rparr>
      else s)"

text \<open>
  What can happen to the page: the monitoring interval runs \<open>checkForHint\<close>; the stuck
  detector calls \<open>moveToNextProblem\<close>; the button \<open>Previous Problem\<close> (rendered only
  when \<open>currentProblem > 0\<close>) steps back; the editor changes the code, counting a syntax
  error when the last analysis reported one and restarting the idle clock when the code
  is blank.
\<close>

datatype pageEvent =
    MonitoringTick int
  | StuckTimeout
  | PreviousProblemClicked
  | CodeEdited string bool int

fun pageStep :: "pageEvent \<Rightarrow> candidateState \<Rightarrow> candidateState" where
  "pageStep (MonitoringTick now) s = checkForHint now s"
| "pageStep StuckTimeout s = moveToNextProblem s"
| "pageStep PreviousProblemClicked s =
     (if currentProblem s > 0 then s\<lparr> currentProblem := currentProblem s - 1 \<rparr> else s)"
| "pageStep (CodeEdited newCode analysisHasSyntaxErrors now) s =
     s\<lparr> editorCode := newCode,
        syntaxErrors := (if analysisHasSyntaxErrors then syntaxErrors s + 1 else syntaxErrors s),
        idleStartTime := (if length (trim newCode) > 0 then None else Some now) \<rparr>"

fun pageRun :: "pageEvent list \<Rightarrow> candidateState \<Rightarrow> candidateState" where
  "pageRun [] s = s"
| "pageRun (e # es) s = pageRun es (pageStep e s)"


section \<open>The cooldown of automated responses (\<open>CandidateCoding\<close>)\<close>

text \<open>
  \<open>pendingClears\<close> holds the due times of the \<open>setTimeout\<close> callbacks that
  \<open>updateAIResponseTime\<close> has scheduled and that have not run yet.
\<close>

record cooldownState =
  lastAIResponseTime :: "int option"
  aiResponseCooldown :: bool
  cooldownTimeLeft :: int
  pendingClears :: "int list"

definition twoMinutes :: int where
  "twoMinutes = 2 * 60 * 1000"

definition canSendAIResponse :: "int \<Rightarrow> cooldownState \<Rightarrow> bool" where
  "canSendAIResponse now s =
     (case lastAIResponseTime s of
        None \<Rightarrow> True
      | Some t \<Rightarrow> (let timeDiff = now - t; canSend = (timeDiff \<ge> twoMinutes)
                  in canSend \<and> \<not> aiResponseCooldown s))"

definition updateAIResponseTime :: "int \<Rightarrow> cooldownState \<Rightarrow> cooldownState" where
  "updateAIResponseTime now s =
     s\<lparr> lastAIResponseTime := Some now, aiResponseCooldown := True,
        pendingClears := pendingClears s @ [now + 2 * 60 * 1000] \<rparr>"

text \<open>The event loop at time \<open>now\<close>: every callback that is due runs, and is forgotten.\<close>

definition runTimers :: "int \<Rightarrow> cooldownState \<Rightarrow> cooldownState" where
  "runTimers now s =
     (if list_ex (\<lambda>due. due \<le> now) (pendingClears s)
      then s\<lparr> aiResponseCooldown := False,
              pendingClears := filter (\<lambda>due. now < due) (pendingClears s) \<rparr>
      else s)"

text \<open>The one-second countdown effect.\<close>

definition countdownTick :: "int \<Rightarrow> cooldownState \<Rightarrow> cooldownState" where
  "countdownTick now s =
     (case lastAIResponseTime s of
        None \<Rightarrow> s
      | Some t \<Rightarrow>
          if \<not> aiResponseCooldown s then s
          else (let timeDiff = now - t;
                    timeLeft = max 0 (twoMinutes - timeDiff) in
                if timeDiff \<ge> twoMinutes
                then s\<lparr> aiResponseCooldown := False, cooldownTimeLeft := 0 \<rparr>
                else s\<lparr> cooldownTimeLeft := - ((- timeLeft) div 1000) \<rparr>))"

text \<open>
  The three places that ask for an automated response (speech, the monitoring interval,
  the debounced code change) share one shape: when \<open>canSendAIResponse()\<close> holds the
  request is dispatched and the cooldown starts, otherwise nothing is sent and no error
  is raised.
\<close>

datatype requestOutcome = Dispatched | Suppressed

definition requestAIResponse :: "int \<Rightarrow> cooldownState \<Rightarrow> requestOutcome \<times> cooldownState" where
  "requestAIResponse now s =
     (if canSendAIResponse now s then (Dispatched, updateAIResponseTime now s)
      else (Suppressed, s))"


text \<open>
  The page as React runs it. A callback registered by an effect reads the state of the
  render in which the effect last ran, not the current state: the effect runs again only
  when a value of its dependency list changes. The dependency lists of the monitoring
  interval and of the debounced analysis name \<open>code\<close> but neither
  \<open>lastAIResponseTime\<close> nor \<open>aiResponseCooldown\<close>. So each of the two callbacks
  decides with \<open>canSendAIResponse\<close> on the view of the cooldown that it captured when
  the code last changed, while \<open>updateAIResponseTime\<close>, the timers and the countdown
  (whose dependency list does name both) act on the live state. The other conjuncts of
  the callbacks' conditions (a socket, at least three characters of code, responses
  enabled) are taken to hold. A change of the code at some time (which the step does not
  read) makes both effects run again; it also restarts the five-second debounce and the
  two-minute monitoring interval, so the runs below list the callbacks at the times at
  which they are due.
\<close>

record cooldownPage =
  live :: cooldownState
  monitoringView :: cooldownState
  debounceView :: cooldownState

definition initialCooldownPage :: cooldownPage where
  "initialCooldownPage =
     (let s0 = \<lparr> lastAIResponseTime = None, aiResponseCooldown = False, cooldownTimeLeft = 0,
                   pendingClears = [] \<rparr>
      in \<lparr> live = s0, monitoringView = s0, debounceView = s0 \<rparr>)"

datatype cooldownEvent =
    CodeTyped int
  | DebounceFires int
  | MonitoringFires int
  | ClockAdvances int

fun cooldownStep :: "cooldownEvent \<Rightarrow> cooldownPage \<Rightarrow> requestOutcome option \<times> cooldownPage" where
  "cooldownStep (CodeTyped now) p =
     (None, p\<lparr> monitoringView := live p, debounceView := live p \<rparr>)"
| "cooldownStep (DebounceFires now) p =
     (if canSendAIResponse now (debounceView p)
      then (Some Dispatched, p\<lparr> live := updateAIResponseTime now (live p) \<rparr>)
      else (Some Suppressed, p))"
| "cooldownStep (MonitoringFires now) p =
     (if canSendAIResponse now (monitoringView p)
      then (Some Dispatched, p\<lparr> live := updateAIResponseTime now (live p) \<rparr>)
      else (Some Suppressed, p))"
| "cooldownStep (ClockAdvances now) p =
     (None, p\<lparr> live := countdownTick now (runTimers now (live p)) \<rparr>)"

fun cooldownRun :: "cooldownEvent list \<Rightarrow> cooldownPage \<Rightarrow> requestOutcome option list \<times> cooldownPage" where
  "cooldownRun [] p = ([], p)"
| "cooldownRun (e # es) p =
     (case cooldownStep e p of
        (outcome, p') \<Rightarrow> (case cooldownRun es p' of (outcomes, p'') \<Rightarrow> (outcome # outcomes, p'')))"


section \<open>The analyzer's short cut and the \<open>code_change\<close> handler\<close>

record codeMetrics =
  totalLines :: nat
  nonEmptyLines :: nat
  characters :: nat
  complexity :: nat
  readability :: nat
  bigO :: string
  bigOScore :: nat
  estimatedExecutionTime :: nat
  estimatedMemory :: nat
  cyclomaticComplexity :: nat
  cyclomaticLevel :: string
  maintainabilityIndex :: nat
  maintainabilityLevel :: string

record analysisResult =
  a_syntaxErrors :: "string list"
  a_logicIssues :: "string list"
  a_suggestions :: "string list"
  a_hints :: "string list"
  a_score :: nat
  a_feedback :: string
  a_codeMetrics :: codeMetrics

definition getEmptyCodeAnalysis :: analysisResult where
  "getEmptyCodeAnalysis =
     \<lparr> a_syntaxErrors = [],
       a_logicIssues = [],
       a_suggestions = [''Start by writing your solution''],
       a_hints = [''Begin with the basic structure of your function''],
       a_score = 0,
       a_feedback = ''Start coding to see analysis'',
       a_codeMetrics =
         \<lparr> totalLines = 0, nonEmptyLines = 0, characters = 0, complexity = 0,
           readability = 0, bigO = ''O(1)'', bigOScore = 0, estimatedExecutionTime = 1,
           estimatedMemory = 0, cyclomaticComplexity = 1, cyclomaticLevel = ''Low'',
           maintainabilityIndex = 100, maintainabilityLevel = ''Good'' \<rparr> \<rparr>"

text \<open>
  \<open>analyzeCodeInRealTime\<close>. The source text is \<open>None\<close> when the payload has no
  \<open>code\<close>. Everything after the guard (syntax validation, the language model, the
  metrics, and the fall-backs when one of them throws) is the parameter \<open>heuristics\<close>.
\<close>

definition analyzeCodeInRealTime ::
  "(string \<Rightarrow> string \<Rightarrow> analysisResult) \<Rightarrow> string option \<Rightarrow> string \<Rightarrow> analysisResult" where
  "analyzeCodeInRealTime heuristics code language =
     (case code of
        None \<Rightarrow> getEmptyCodeAnalysis
      | Some src \<Rightarrow>
          if src = [] \<or> length (trim src) = 0 then getEmptyCodeAnalysis
          else heuristics src language)"

text \<open>
  The \<open>code_change\<close> handler, as the list of the events it emits on the socket. The
  lookup of the interview comes first and may throw; then the guard; then the analysis
  and one \<open>code_analysis\<close> event. The bookkeeping between the analysis and the
  emission (session counters, saved messages) is left out.
\<close>

datatype serverEmit =
    CodeAnalysis analysisResult
  | ErrorMessage string

definition code_change_handler ::
  "(string \<Rightarrow> string \<Rightarrow> analysisResult) \<Rightarrow> bool \<Rightarrow> string option \<Rightarrow> string \<Rightarrow> serverEmit list" where
  "code_change_handler heuristics lookupThrows code language =
     (if lookupThrows then [ErrorMessage ''Failed to analyze code'']
      else (case code of
              None \<Rightarrow> []
            | Some src \<Rightarrow>
                if src = [] \<or> length (trim src) < 3 then []
                else [CodeAnalysis (analyzeCodeInRealTime heuristics code language)]))"


section \<open>The session's overall score (\<open>InterviewSession\<close>, \<open>run_tests\<close>, completion)\<close>


record codeSubmission =
  sub_overallScore :: nat
  sub_totalTests :: nat
  sub_passedTests :: nat
  sub_failedTests :: nat

record performanceMetrics =
  pm_syntaxErrors :: nat
  pm_logicIssues :: nat
  averageCodeQuality :: rat
  averageBigO :: string
  averageMaintainability :: rat

record interviewSession =
  codeSubmissions :: "codeSubmission list"
  metrics :: performanceMetrics
  overallScore :: nat




text \<open>
  What the \<open>code_change\<close> handler does to the session with an analysis: the counters
  grow and the running quality averages move half way to the new maintainability value.
\<close>

definition recordAnalysis :: "analysisResult \<Rightarrow> interviewSession \<Rightarrow> interviewSession" where
  "recordAnalysis analysis s =
     (let m = metrics s;
          value = (if maintainabilityIndex (a_codeMetrics analysis) = 0 then 100
                   else of_nat (maintainabilityIndex (a_codeMetrics analysis)))
      in s\<lparr> metrics := m\<lparr>
             pm_syntaxErrors := pm_syntaxErrors m + length (a_syntaxErrors analysis),
             pm_logicIssues := pm_logicIssues m + length (a_logicIssues analysis),
             averageCodeQuality := (averageCodeQuality m + value) / 2,
             averageBigO := (if bigO (a_codeMetrics analysis) = [] then ''O(1)''
                             else bigO (a_codeMetrics analysis)),
             averageMaintainability := (averageMaintainability m + value) / 2 \<rparr> \<rparr>)"









section \<open>Sample inputs\<close>

text \<open>
  Concrete environments and test cases on which the properties below are evaluated: a
  \<open>JSON.parse\<close> that always throws and one that knows the text \<open>[1,2]\<close>, the test
  cases of the 3Sum problem, a compiler that rejects the source, a program that is
  killed at the time limit, a program that prints an array, and one that exits with 1.
\<close>

definition noParse :: "string \<Rightarrow> jsval option" where
  "noParse s = None"

definition parseOneTwo :: "string \<Rightarrow> jsval option" where
  "parseOneTwo s = (if s = ''[1,2]'' then Some (JArr [JNum 1, JNum 2]) else None)"

definition threeSumCases :: "testCase list" where
  "threeSumCases =
     [\<lparr> tc_input = JArr [JNum (- 1), JNum 0, JNum 1, JNum 2, JNum (- 1), JNum (- 4)],
        tc_expectedOutput = JStr ''[[-1,-1,2],[-1,0,1]]'' \<rparr>,
      \<lparr> tc_input = JArr [JNum 0, JNum 1, JNum 1], tc_expectedOutput = JStr ''[]'' \<rparr>,
      \<lparr> tc_input = JArr [JNum 0, JNum 0, JNum 0], tc_expectedOutput = JStr ''[[0,0,0]]'' \<rparr>]"

definition missingSemicolonWorld :: world where
  "missingSemicolonWorld =
     \<lparr> nowFile = 41, nowExe = 42, writeError = None,
       compileChild = Close (Some 1) [] ''error: expected ';' before '}' token'',
       runChild = Close (Some 0) [] [], elapsed = 350 \<rparr>"

definition timeoutWorld :: world where
  "timeoutWorld =
     \<lparr> nowFile = 41, nowExe = 42, writeError = None,
       compileChild = Close (Some 0) [] [],
       runChild = Close None [] [], elapsed = 5000 \<rparr>"

definition printsOneTwoWorld :: world where
  "printsOneTwoWorld =
     \<lparr> nowFile = 41, nowExe = 42, writeError = None,
       compileChild = Close (Some 0) [] [],
       runChild = Close (Some 0) (''ACTUAL_OUTPUT: [1,2]'' @ [CHR 0x0A]) [], elapsed = 40 \<rparr>"

definition crashWorld :: world where
  "crashWorld =
     \<lparr> nowFile = 43, nowExe = 44, writeError = None,
       compileChild = Close (Some 0) [] [],
       runChild = Close (Some 1) [] ''Error: boom'', elapsed = 35 \<rparr>"


text \<open>
  Further samples: heuristics that return some analysis, an analysis with a given
  maintainability index, and a batch of two results of which one passed.
\<close>

definition sampleHeuristics :: "string \<Rightarrow> string \<Rightarrow> analysisResult" where
  "sampleHeuristics src language =
     getEmptyCodeAnalysis\<lparr> a_score := 40, a_feedback := ''Keep going'' \<rparr>"




section \<open>White space, words and case\<close>

lemma isWhiteSpace_lowerChar [simp]: "isWhiteSpace (lowerChar c) = isWhiteSpace c"
  unfolding isWhiteSpace_def lowerChar_def Let_def by auto

lemma isWhiteSpace_space [simp]: "isWhiteSpace (CHR '' '')"
  by (simp add: isWhiteSpace_def)

lemma lowerChar_space [simp]: "lowerChar (CHR '' '') = CHR '' ''"
  by (simp add: lowerChar_def)

lemma dropWhile_all: "\<forall>x\<in>set xs. P x \<Longrightarrow> dropWhile P xs = []"
  by simp

lemma trimEnd_Nil [simp]: "trimEnd [] = []"
  by (simp add: trimEnd_def)

lemma trimEnd_Cons:
  "trimEnd (c # cs) =
     (if isWhiteSpace c \<and> (\<forall>x\<in>set cs. isWhiteSpace x) then [] else c # trimEnd cs)"
  by (auto simp: trimEnd_def dropWhile_append)

lemma trimEnd_all_ws: "(\<forall>x\<in>set s. isWhiteSpace x) \<Longrightarrow> trimEnd s = []"
  by (simp add: trimEnd_def)

lemma dropWhile_trimEnd:
  "dropWhile isWhiteSpace (trimEnd s) = trimEnd (dropWhile isWhiteSpace s)"
proof (induction s)
  case Nil
  show ?case by simp
next
  case (Cons c cs)
  show ?case
  proof (cases "isWhiteSpace c")
    case True
    show ?thesis
    proof (cases "\<forall>x\<in>set cs. isWhiteSpace x")
      case allws: True
      with True show ?thesis by (simp add: trimEnd_Cons dropWhile_all)
    next
      case False
      with True Cons show ?thesis by (auto simp: trimEnd_Cons)
    qed
  next
    case False
    then show ?thesis by (simp add: trimEnd_Cons)
  qed
qed

lemma trimEnd_nonws_prefix:
  "\<forall>x\<in>set u. \<not> isWhiteSpace x \<Longrightarrow> trimEnd (u @ r) = u @ trimEnd r"
  by (induction u) (auto simp: trimEnd_Cons)

lemma collapse_nonws_prefix:
  "\<forall>x\<in>set u. \<not> isWhiteSpace x \<Longrightarrow> collapseWhitespace (u @ t) = u @ collapseWhitespace t"
  by (induction u) auto

lemma wordsOf_Nil_iff: "wordsOf s = [] \<longleftrightarrow> (\<forall>x\<in>set s. isWhiteSpace x)"
proof -
  have "wordsOf s = [] \<longleftrightarrow> dropWhile isWhiteSpace s = []"
    by (subst wordsOf.simps) (simp split: list.splits del: dropWhile_eq_Nil_conv)
  then show ?thesis by simp
qed

lemma collapse_trimEnd_ws_head:
  assumes "r = [] \<or> isWhiteSpace (hd r)"
  shows "collapseWhitespace (trimEnd r) =
     (if \<forall>x\<in>set r. isWhiteSpace x then []
      else CHR '' '' # collapseWhitespace (trimEnd (dropWhile isWhiteSpace r)))"
proof (cases r)
  case Nil
  then show ?thesis by simp
next
  case (Cons d r')
  with assms have d: "isWhiteSpace d" by simp
  show ?thesis
    using d Cons by (simp add: trimEnd_Cons dropWhile_trimEnd)
qed

lemma collapse_trim_words:
  "collapseWhitespace (trim s) = joinWith '' '' (wordsOf s)"
proof (induction s rule: wordsOf.induct)
  case (1 s)
  show ?case
  proof (cases "dropWhile isWhiteSpace s")
    case Nil
    then show ?thesis by (subst wordsOf.simps) (simp add: dropWhile_all trim_def)
  next
    case (Cons c cs)
    define w where "w = takeWhile (\<lambda>x. \<not> isWhiteSpace x) cs"
    define r where "r = dropWhile (\<lambda>x. \<not> isWhiteSpace x) cs"
    have c: "\<not> isWhiteSpace c"
      using Cons by (metis hd_dropWhile list.sel(1) list.distinct(1))
    have w: "\<forall>x\<in>set (c # w). \<not> isWhiteSpace x"
      using c by (auto simp: w_def dest: set_takeWhileD)
    have cs: "c # cs = (c # w) @ r" by (simp add: w_def r_def)
    have r: "r = [] \<or> isWhiteSpace (hd r)"
      unfolding r_def by (metis hd_dropWhile)
    have IH: "collapseWhitespace (trimEnd (dropWhile isWhiteSpace r)) = joinWith '' '' (wordsOf r)"
      using "1.IH" [OF Cons] by (simp add: r_def trim_def)
    have words: "wordsOf s = (c # w) # wordsOf r"
      by (subst wordsOf.simps) (simp add: Cons w_def r_def)
    have "collapseWhitespace (trim s) = (c # w) @ collapseWhitespace (trimEnd r)"
      unfolding trim_def Cons cs using w
      by (simp only: trimEnd_nonws_prefix collapse_nonws_prefix)
    also have "\<dots> = joinWith '' '' ((c # w) # wordsOf r)"
    proof (cases "\<forall>x\<in>set r. isWhiteSpace x")
      case True
      then have "wordsOf r = []" by (simp add: wordsOf_Nil_iff)
      with True show ?thesis by (simp add: trimEnd_all_ws)
    next
      case False
      then have "wordsOf r \<noteq> []" by (simp add: wordsOf_Nil_iff)
      then obtain v vs where vs: "wordsOf r = v # vs" by (cases "wordsOf r") auto
      show ?thesis
        using False IH by (simp add: collapse_trimEnd_ws_head [OF r] vs)
    qed
    finally show ?thesis by (simp add: words)
  qed
qed

lemma dropWhile_ws_lower:
  "dropWhile isWhiteSpace (map lowerChar s) = map lowerChar (dropWhile isWhiteSpace s)"
  by (induction s) auto

lemma takeWhile_nonws_lower:
  "takeWhile (\<lambda>x. \<not> isWhiteSpace x) (map lowerChar s)
     = map lowerChar (takeWhile (\<lambda>x. \<not> isWhiteSpace x) s)"
  by (induction s) auto

lemma dropWhile_nonws_lower:
  "dropWhile (\<lambda>x. \<not> isWhiteSpace x) (map lowerChar s)
     = map lowerChar (dropWhile (\<lambda>x. \<not> isWhiteSpace x) s)"
  by (induction s) auto

lemma trim_lower: "trim (toLowerCase s) = toLowerCase (trim s)"
  by (simp add: trim_def trimEnd_def toLowerCase_def dropWhile_ws_lower rev_map)

lemma wordsOf_lower: "wordsOf (toLowerCase s) = map toLowerCase (wordsOf s)"
proof (induction s rule: wordsOf.induct)
  case (1 s)
  show ?case
  proof (cases "dropWhile isWhiteSpace s")
    case Nil
    then show ?thesis
      by (subst wordsOf.simps, subst (2) wordsOf.simps)
         (simp add: toLowerCase_def dropWhile_ws_lower dropWhile_all)
  next
    case (Cons c cs)
    from "1.IH" [OF Cons] show ?thesis
      by (subst wordsOf.simps, subst (2) wordsOf.simps)
         (simp add: Cons toLowerCase_def dropWhile_ws_lower takeWhile_nonws_lower
            dropWhile_nonws_lower)
  qed
qed

lemma collapse_lower_trim_words:
  "collapseWhitespace (toLowerCase (trim s)) = joinWith '' '' (map toLowerCase (wordsOf s))"
proof -
  have "collapseWhitespace (toLowerCase (trim s)) = collapseWhitespace (trim (toLowerCase s))"
    by (simp add: trim_lower)
  also have "\<dots> = joinWith '' '' (wordsOf (toLowerCase s))"
    by (simp add: collapse_trim_words)
  finally show ?thesis by (simp add: wordsOf_lower)
qed

lemma wordsOf_word_append:
  assumes "w \<noteq> []" "\<forall>x\<in>set w. \<not> isWhiteSpace x"
  shows "wordsOf (w @ CHR '' '' # t) = w # wordsOf t"
proof -
  from assms obtain c u where w: "w = c # u" by (cases w) auto
  with assms have c: "\<not> isWhiteSpace c" and u: "\<forall>x\<in>set u. \<not> isWhiteSpace x" by auto
  have t1: "takeWhile (\<lambda>x. \<not> isWhiteSpace x) (u @ CHR '' '' # t) = u"
    using u by (simp add: takeWhile_append2 takeWhile_append)
  have t2: "dropWhile (\<lambda>x. \<not> isWhiteSpace x) (u @ CHR '' '' # t) = CHR '' '' # t"
    using u by (simp add: dropWhile_append)
  have t3: "wordsOf (CHR '' '' # t) = wordsOf t"
    by (subst wordsOf.simps, subst (2) wordsOf.simps) simp
  show ?thesis
    by (subst wordsOf.simps) (simp add: w c t1 t2 t3)
qed

lemma wordsOf_single:
  assumes "w \<noteq> []" "\<forall>x\<in>set w. \<not> isWhiteSpace x"
  shows "wordsOf w = [w]"
proof -
  from assms obtain c u where w: "w = c # u" by (cases w) auto
  with assms have c: "\<not> isWhiteSpace c" and u: "\<forall>x\<in>set u. \<not> isWhiteSpace x" by auto
  have t1: "takeWhile (\<lambda>x. \<not> isWhiteSpace x) u = u" using u by simp
  have t2: "dropWhile (\<lambda>x. \<not> isWhiteSpace x) u = []" using u by simp
  have t3: "wordsOf [] = []" by (subst wordsOf.simps) simp
  show ?thesis
    by (subst wordsOf.simps) (simp add: w c t1 t2 t3)
qed

lemma wordsOf_joinWith:
  "\<forall>w\<in>set ws. w \<noteq> [] \<and> (\<forall>x\<in>set w. \<not> isWhiteSpace x) \<Longrightarrow> wordsOf (joinWith '' '' ws) = ws"
proof (induction "'' ''" ws rule: joinWith.induct)
  case 1
  show ?case by (subst wordsOf.simps) simp
next
  case (2 w)
  then show ?case by (simp add: wordsOf_single)
next
  case (3 w v ws)
  then show ?case by (simp add: wordsOf_word_append)
qed

lemma wordsOf_wellformed:
  "\<forall>w\<in>set (wordsOf s). w \<noteq> [] \<and> (\<forall>x\<in>set w. \<not> isWhiteSpace x)"
proof (induction s rule: wordsOf.induct)
  case (1 s)
  show ?case
  proof (cases "dropWhile isWhiteSpace s")
    case Nil
    then have "wordsOf s = []" by (simp add: wordsOf_Nil_iff)
    then show ?thesis by simp
  next
    case (Cons c cs)
    have c: "\<not> isWhiteSpace c"
      using Cons by (metis hd_dropWhile list.sel(1) list.distinct(1))
    have words: "wordsOf s = (c # takeWhile (\<lambda>x. \<not> isWhiteSpace x) cs)
        # wordsOf (dropWhile (\<lambda>x. \<not> isWhiteSpace x) cs)"
      by (subst wordsOf.simps) (simp add: Cons)
    have head: "\<forall>x\<in>set (c # takeWhile (\<lambda>x. \<not> isWhiteSpace x) cs). \<not> isWhiteSpace x"
      using c by (auto dest: set_takeWhileD)
    show ?thesis
      unfolding words
    proof
      fix v
      assume "v \<in> set ((c # takeWhile (\<lambda>x. \<not> isWhiteSpace x) cs)
        # wordsOf (dropWhile (\<lambda>x. \<not> isWhiteSpace x) cs))"
      then consider "v = c # takeWhile (\<lambda>x. \<not> isWhiteSpace x) cs"
        | "v \<in> set (wordsOf (dropWhile (\<lambda>x. \<not> isWhiteSpace x) cs))"
        by (simp only: set_simps insert_iff) blast
      then show "v \<noteq> [] \<and> (\<forall>x\<in>set v. \<not> isWhiteSpace x)"
      proof cases
        case 1
        with head show ?thesis by blast
      next
        case 2
        with "1.IH" [OF Cons] show ?thesis by blast
      qed
    qed
  qed
qed

lemma wordsOf_collapse_lower_trim:
  "wordsOf (collapseWhitespace (toLowerCase (trim s))) = map toLowerCase (wordsOf s)"
proof -
  have "\<forall>w\<in>set (map toLowerCase (wordsOf s)). w \<noteq> [] \<and> (\<forall>x\<in>set w. \<not> isWhiteSpace x)"
    using wordsOf_wellformed [of s] by (auto simp: toLowerCase_def)
  then show ?thesis
    by (simp only: collapse_lower_trim_words wordsOf_joinWith)
qed

lemma normalize_eq_iff:
  "normalize a = normalize b \<longleftrightarrow> equalUpToCaseAndSpace (jsString a) (jsString b)"
proof
  assume "normalize a = normalize b"
  then have "wordsOf (normalize a) = wordsOf (normalize b)" by (rule arg_cong)
  then show "equalUpToCaseAndSpace (jsString a) (jsString b)"
    by (simp only: normalize_def wordsOf_collapse_lower_trim equalUpToCaseAndSpace_def)
next
  assume "equalUpToCaseAndSpace (jsString a) (jsString b)"
  then show "normalize a = normalize b"
    by (simp only: normalize_def collapse_lower_trim_words equalUpToCaseAndSpace_def)
qed

text \<open>
  Claim C2, as amended. \<open>compareOutputs(actual, expected)\<close> holds exactly when
  \<open>String(actual)\<close> and \<open>String(expected)\<close> have the same words up to case: white space
  at the ends is ignored and every run of white space inside counts as one separator.
  White space is collapsed, never removed, so a separator that one side has and the
  other lacks makes the comparison fail.
\<close>

theorem compareOutputs_collapses_whitespace:
  "compareOutputs actual expected \<longleftrightarrow> equalUpToCaseAndSpace (jsString actual) (jsString expected)"
  by (simp only: compareOutputs_def normalize_eq_iff)

text \<open>A concrete pair that differs in white space only.\<close>

theorem compareOutputs_collapses_whitespace_witness:
  "equalUpToCaseAndSpace ''[1,    2]  '' ''  [1, 2]'' \<and>
   compareOutputs (JStr ''[1,    2]  '') (JStr ''  [1, 2]'')"
proof -
  have w: "equalUpToCaseAndSpace ''[1,    2]  '' ''  [1, 2]''"
    by code_simp
  with compareOutputs_collapses_whitespace [of "JStr ''[1,    2]  ''" "JStr ''  [1, 2]''"]
  show ?thesis by simp
qed

text \<open>
  The example of claim C2 fails: \<open>[1, 2]\<close> has the two words \<open>[1,\<close> and \<open>2]\<close>, while
  \<open>[1,2]\<close> is one word.
\<close>

theorem compareOutputs_space_after_comma_counterexample:
  "\<not> compareOutputs (JStr ''[1, 2]'') (JStr ''[1,2]'')"
  by code_simp

section \<open>The executor\<close>

lemma executeJavaScript_snd_dir:
  "snd (executeJavaScript parse dir w code tc) = snd (executeJavaScript parse {} w code tc)"
  by (simp add: executeJavaScript_def Let_def split: option.splits childEvent.splits)

lemma executePython_snd_dir:
  "snd (executePython parse dir w code tc) = snd (executePython parse {} w code tc)"
  by (simp add: executePython_def Let_def split: option.splits childEvent.splits)

lemma executeCpp_snd_dir:
  "snd (executeCpp dir w code tc) = snd (executeCpp {} w code tc)"
  by (simp add: executeCpp_def Let_def split: option.splits childEvent.splits sum.splits)

lemma dispatchLanguage_snd_dir:
  "snd (dispatchLanguage parse dir w code language tc)
     = snd (dispatchLanguage parse {} w code language tc)"
  unfolding dispatchLanguage_def
  using executeJavaScript_snd_dir [of parse dir w code tc]
        executePython_snd_dir [of parse dir w code tc]
        executeCpp_snd_dir [of dir w code tc]
  by simp

lemma executeSingleTest_snd:
  "snd (executeSingleTest parse dir w code language tc n) =
     (case snd (dispatchLanguage parse {} w code language tc) of
        Inr output \<Rightarrow>
          \<lparr> r_testCase = ''Test Case '' @ showNat n,
            r_input = tc_input tc,
            r_expectedOutput = tc_expectedOutput tc,
            r_actualOutput = output,
            r_passed = compareOutputs output (tc_expectedOutput tc),
            r_executionTime = elapsed w,
            r_memoryUsage = 0,
            r_error = None \<rparr>
      | Inl message \<Rightarrow>
          \<lparr> r_testCase = ''Test Case '' @ showNat n,
            r_input = tc_input tc,
            r_expectedOutput = tc_expectedOutput tc,
            r_actualOutput = JStr ''Execution Error'',
            r_passed = False,
            r_executionTime = elapsed w,
            r_memoryUsage = 0,
            r_error = Some message \<rparr>)"
proof -
  obtain d r where dr: "dispatchLanguage parse dir w code language tc = (d, r)"
    by (cases "dispatchLanguage parse dir w code language tc")
  then have "snd (dispatchLanguage parse {} w code language tc) = r"
    using dispatchLanguage_snd_dir [of parse dir w code language tc] by simp
  with dr show ?thesis
    by (simp add: executeSingleTest_def split: sum.splits)
qed

lemma executeSingleTest_fst:
  "fst (executeSingleTest parse dir w code language tc n)
     = fst (dispatchLanguage parse dir w code language tc)"
  by (simp add: executeSingleTest_def split: prod.splits sum.splits)

lemma executeLoop_snd:
  "snd (executeLoop parse worlds code language testCases i dir results) =
     results @ map (\<lambda>j. snd (executeSingleTest parse {} (worlds j) code language
                               (testCases ! j) (j + 1))) [i ..< length testCases]"
proof (induction parse worlds code language testCases i dir results rule: executeLoop.induct)
  case (1 parse worlds code language testCases i dir results)
  show ?case
  proof (cases "i < length testCases")
    case False
    then show ?thesis by (subst executeLoop.simps) simp
  next
    case True
    obtain dir' result where step:
      "executeSingleTest parse dir (worlds i) code language (testCases ! i) (i + 1) = (dir', result)"
      by (cases "executeSingleTest parse dir (worlds i) code language (testCases ! i) (i + 1)")
    have result: "result = snd (executeSingleTest parse {} (worlds i) code language
                                 (testCases ! i) (i + 1))"
      using step executeSingleTest_snd [of parse dir "worlds i" code language "testCases ! i" "i + 1"]
            executeSingleTest_snd [of parse "{}" "worlds i" code language "testCases ! i" "i + 1"]
      by simp
    have "snd (executeLoop parse worlds code language testCases i dir results)
        = snd (executeLoop parse worlds code language testCases (i + 1) dir' (results @ [result]))"
      using True step by (subst executeLoop.simps) simp
    also have "\<dots> = (results @ [result]) @
        map (\<lambda>j. snd (executeSingleTest parse {} (worlds j) code language
                         (testCases ! j) (j + 1))) [i + 1 ..< length testCases]"
      using "1.IH" [OF True step [symmetric]] .
    finally show ?thesis
      using True result by (simp add: upt_conv_Cons)
  qed
qed

lemma executeTests_snd:
  "snd (executeTests parse worlds dir code language testCases) =
     map (\<lambda>j. snd (executeSingleTest parse {} (worlds j) code language (testCases ! j) (j + 1)))
       [0 ..< length testCases]"
  by (simp add: executeTests_def executeLoop_snd)

lemma executionFailed_nonempty [simp]: "executionFailed err \<noteq> []"
  by (simp add: executionFailed_def)

lemma cppInputString_Inl_nonempty: "cppInputString v = Inl m \<Longrightarrow> m \<noteq> []"
  by (cases v) (auto split: option.splits jsval.splits)

lemma dispatchLanguage_rejection_nonempty:
  assumes "runtimeMessagesNonEmpty w"
      and "snd (dispatchLanguage parse dir w code language tc) = Inl m"
  shows "m \<noteq> []"
proof -
  consider (js) "toLowerCase language = ''javascript''"
    | (py) "toLowerCase language \<noteq> ''javascript''" "toLowerCase language = ''python''"
    | (cpp) "toLowerCase language \<noteq> ''javascript''" "toLowerCase language \<noteq> ''python''"
            "toLowerCase language = ''c++''"
    | (other) "toLowerCase language \<noteq> ''javascript''" "toLowerCase language \<noteq> ''python''"
            "toLowerCase language \<noteq> ''c++''"
    by blast
  then show ?thesis
  proof cases
    case js
    with assms show ?thesis
      by (auto simp: dispatchLanguage_def executeJavaScript_def runtimeMessagesNonEmpty_def Let_def
               split: option.splits childEvent.splits if_splits)
  next
    case py
    with assms show ?thesis
      by (auto simp: dispatchLanguage_def executePython_def runtimeMessagesNonEmpty_def Let_def
               split: option.splits childEvent.splits if_splits)
  next
    case cpp
    with assms show ?thesis
      by (auto simp: dispatchLanguage_def executeCpp_def runtimeMessagesNonEmpty_def Let_def
               dest: cppInputString_Inl_nonempty
               split: option.splits childEvent.splits if_splits sum.splits)
  next
    case other
    with assms show ?thesis
      by (auto simp: dispatchLanguage_def)
  qed
qed

text \<open>
  Claim C1. \<open>executeTests(code, language, testCases)\<close> returns exactly one result per
  test case, in the order of \<open>testCases\<close>: the result at index \<open>i\<close> is labelled
  \<open>Test Case i+1\<close> and carries the input and the expected output of the test case at
  index \<open>i\<close>. When the execution of that test case fails (the promise of the language's
  executor rejects), the result has \<open>passed = false\<close> and an \<open>error\<close> that is not empty.
  The messages that the runtime itself supplies are taken to be non-empty.
\<close>

theorem executeTests_one_result_per_test_case:
  assumes "\<forall>i<length testCases. runtimeMessagesNonEmpty (worlds i)"
  shows "length (snd (executeTests parse worlds dir code language testCases)) = length testCases \<and>
    (\<forall>i<length testCases.
       r_testCase (snd (executeTests parse worlds dir code language testCases) ! i)
         = ''Test Case '' @ showNat (i + 1) \<and>
       r_input (snd (executeTests parse worlds dir code language testCases) ! i)
         = tc_input (testCases ! i) \<and>
       r_expectedOutput (snd (executeTests parse worlds dir code language testCases) ! i)
         = tc_expectedOutput (testCases ! i) \<and>
       (\<forall>d. isl (snd (dispatchLanguage parse d (worlds i) code language (testCases ! i))) \<longrightarrow>
          \<not> r_passed (snd (executeTests parse worlds dir code language testCases) ! i) \<and>
          (\<exists>m. r_error (snd (executeTests parse worlds dir code language testCases) ! i) = Some m
               \<and> m \<noteq> [])))"
proof (intro conjI allI impI)
  show "length (snd (executeTests parse worlds dir code language testCases)) = length testCases"
    by (simp add: executeTests_snd)
next
  fix i assume i: "i < length testCases"
  let ?r = "snd (executeTests parse worlds dir code language testCases) ! i"
  have r: "?r = snd (executeSingleTest parse {} (worlds i) code language (testCases ! i) (i + 1))"
    using i by (simp add: executeTests_snd)
  show "r_testCase ?r = ''Test Case '' @ showNat (i + 1)"
    unfolding r executeSingleTest_snd by (simp split: sum.splits)
  show "r_input ?r = tc_input (testCases ! i)"
    unfolding r executeSingleTest_snd by (simp split: sum.splits)
  show "r_expectedOutput ?r = tc_expectedOutput (testCases ! i)"
    unfolding r executeSingleTest_snd by (simp split: sum.splits)
  fix d
  assume "isl (snd (dispatchLanguage parse d (worlds i) code language (testCases ! i)))"
  then obtain m where m: "snd (dispatchLanguage parse d (worlds i) code language (testCases ! i)) = Inl m"
    by (auto simp: isl_def)
  then have m0: "snd (dispatchLanguage parse {} (worlds i) code language (testCases ! i)) = Inl m"
    using dispatchLanguage_snd_dir [of parse d "worlds i" code language "testCases ! i"] by simp
  have "m \<noteq> []"
    using dispatchLanguage_rejection_nonempty [OF _ m] assms i by blast
  then show "\<not> r_passed ?r" and "\<exists>m. r_error ?r = Some m \<and> m \<noteq> []"
    unfolding r executeSingleTest_snd m0 by simp_all
qed


text \<open>
  A batch of two JavaScript test cases: the first prints an array, the second crashes.
\<close>

theorem executeTests_one_result_per_test_case_witness:
  "runtimeMessagesNonEmpty printsOneTwoWorld \<and> runtimeMessagesNonEmpty crashWorld \<and>
   length (snd (executeTests parseOneTwo (\<lambda>i. if i = 0 then printsOneTwoWorld else crashWorld) {}
     ''function f(a) { return [1,2]; }'' ''JavaScript''
     [\<lparr> tc_input = JArr [], tc_expectedOutput = JStr ''1,2'' \<rparr>,
      \<lparr> tc_input = JArr [], tc_expectedOutput = JStr ''1,2'' \<rparr>])) = 2 \<and>
   map r_error (snd (executeTests parseOneTwo (\<lambda>i. if i = 0 then printsOneTwoWorld else crashWorld) {}
     ''function f(a) { return [1,2]; }'' ''JavaScript''
     [\<lparr> tc_input = JArr [], tc_expectedOutput = JStr ''1,2'' \<rparr>,
      \<lparr> tc_input = JArr [], tc_expectedOutput = JStr ''1,2'' \<rparr>])) = [None, Some ''Error: boom'']"
proof -
  let ?worlds = "\<lambda>i::nat. if i = 0 then printsOneTwoWorld else crashWorld"
  let ?tcs = "[\<lparr> tc_input = JArr [], tc_expectedOutput = JStr ''1,2'' \<rparr>,
               \<lparr> tc_input = JArr [], tc_expectedOutput = JStr ''1,2'' \<rparr>]"
  have a: "runtimeMessagesNonEmpty printsOneTwoWorld"
    by (simp add: runtimeMessagesNonEmpty_def printsOneTwoWorld_def)
  have b: "runtimeMessagesNonEmpty crashWorld"
    by (simp add: runtimeMessagesNonEmpty_def crashWorld_def)
  have hyp: "\<forall>i<length ?tcs. runtimeMessagesNonEmpty (?worlds i)"
    using a b by simp
  have len: "length (snd (executeTests parseOneTwo ?worlds {}
      ''function f(a) { return [1,2]; }'' ''JavaScript'' ?tcs)) = 2"
    using executeTests_one_result_per_test_case [OF hyp, of parseOneTwo "{}"
      "''function f(a) { return [1,2]; }''" "''JavaScript''"] by simp
  have errs: "map r_error (snd (executeTests parseOneTwo ?worlds {}
      ''function f(a) { return [1,2]; }'' ''JavaScript'' ?tcs)) = [None, Some ''Error: boom'']"
    by code_simp
  from a b len errs show ?thesis by blast
qed


section \<open>Compilation failures\<close>

lemma compilationFails_result:
  assumes "toLowerCase language = ''c++''" and "compilationFails w tc"
  shows "snd (executeSingleTest parse dir w code language tc n) =
     \<lparr> r_testCase = ''Test Case '' @ showNat n,
       r_input = tc_input tc,
       r_expectedOutput = tc_expectedOutput tc,
       r_actualOutput = JStr ''Execution Error'',
       r_passed = False,
       r_executionTime = elapsed w,
       r_memoryUsage = 0,
       r_error = Some (''Compilation failed: '' @ compilerStderr w) \<rparr>"
proof -
  have lang: "toLowerCase language \<noteq> ''javascript''" "toLowerCase language \<noteq> ''python''"
    using assms(1) by simp_all
  obtain inputString where inp: "cppInputString (tc_input tc) = Inr inputString"
    using assms(2) by (cases "cppInputString (tc_input tc)") (auto simp: compilationFails_def)
  have "snd (dispatchLanguage parse {} w code language tc)
      = Inl (''Compilation failed: '' @ compilerStderr w)"
    using assms lang inp
    by (auto simp: dispatchLanguage_def executeCpp_def compilationFails_def compilerStderr_def
          Let_def split: childEvent.splits)
  then show ?thesis by (simp add: executeSingleTest_snd)
qed

text \<open>
  Claim C3, as amended. When a C++ submission fails to compile, every test case of the
  batch compiles the submission again and gets a failed result of its own:
  \<open>actualOutput\<close> is \<open>Execution Error\<close>, \<open>passed\<close> is false and \<open>error\<close> is
  \<open>Compilation failed: \<close> followed by the compiler's standard error. The batch has one
  such record per test case.
\<close>

theorem compile_failure_is_reported_per_test_case:
  assumes "toLowerCase language = ''c++''"
      and "\<forall>i<length testCases. compilationFails (worlds i) (testCases ! i)"
  shows "length (snd (executeTests parse worlds dir code language testCases)) = length testCases \<and>
    (\<forall>i<length testCases.
       snd (executeTests parse worlds dir code language testCases) ! i =
         \<lparr> r_testCase = ''Test Case '' @ showNat (i + 1),
           r_input = tc_input (testCases ! i),
           r_expectedOutput = tc_expectedOutput (testCases ! i),
           r_actualOutput = JStr ''Execution Error'',
           r_passed = False,
           r_executionTime = elapsed (worlds i),
           r_memoryUsage = 0,
           r_error = Some (''Compilation failed: '' @ compilerStderr (worlds i)) \<rparr>)"
proof (intro conjI allI impI)
  show "length (snd (executeTests parse worlds dir code language testCases)) = length testCases"
    by (simp add: executeTests_snd)
next
  fix i assume i: "i < length testCases"
  with assms(2) have "compilationFails (worlds i) (testCases ! i)" by blast
  from compilationFails_result [OF assms(1) this] i
  show "snd (executeTests parse worlds dir code language testCases) ! i =
         \<lparr> r_testCase = ''Test Case '' @ showNat (i + 1),
           r_input = tc_input (testCases ! i),
           r_expectedOutput = tc_expectedOutput (testCases ! i),
           r_actualOutput = JStr ''Execution Error'',
           r_passed = False,
           r_executionTime = elapsed (worlds i),
           r_memoryUsage = 0,
           r_error = Some (''Compilation failed: '' @ compilerStderr (worlds i)) \<rparr>"
    by (simp add: executeTests_snd)
qed

text \<open>
  The three test cases of 3Sum against a source with a missing semicolon.
\<close>

theorem compile_failure_is_reported_per_test_case_witness:
  "toLowerCase ''C++'' = ''c++'' \<and>
   compilationFails missingSemicolonWorld (threeSumCases ! 0) \<and>
   compilationFails missingSemicolonWorld (threeSumCases ! 1) \<and>
   compilationFails missingSemicolonWorld (threeSumCases ! 2) \<and>
   length (snd (executeTests noParse (\<lambda>i. missingSemicolonWorld) {}
     ''vector<vector<int>> threeSum(vector<int>& nums) { return {} }'' ''C++'' threeSumCases)) = 3 \<and>
   r_error (snd (executeTests noParse (\<lambda>i. missingSemicolonWorld) {}
     ''vector<vector<int>> threeSum(vector<int>& nums) { return {} }'' ''C++'' threeSumCases) ! 2)
     = Some ''Compilation failed: error: expected ';' before '}' token''"
proof -
  have lang: "toLowerCase ''C++'' = ''c++''" by code_simp
  have c0: "compilationFails missingSemicolonWorld (threeSumCases ! 0)" by code_simp
  have c1: "compilationFails missingSemicolonWorld (threeSumCases ! 1)" by code_simp
  have c2: "compilationFails missingSemicolonWorld (threeSumCases ! 2)" by code_simp
  have len: "length threeSumCases = 3" by (simp add: threeSumCases_def)
  have hyp: "\<forall>i<length threeSumCases.
      compilationFails ((\<lambda>i. missingSemicolonWorld) i) (threeSumCases ! i)"
    using c0 c1 c2 by (auto simp: len less_Suc_eq numeral_3_eq_3 numeral_2_eq_2)
  have err: "compilerStderr missingSemicolonWorld = ''error: expected ';' before '}' token''"
    by (simp add: compilerStderr_def missingSemicolonWorld_def)
  from compile_failure_is_reported_per_test_case [OF lang hyp, of noParse "{}"
      "''vector<vector<int>> threeSum(vector<int>& nums) { return {} }''"]
  show ?thesis using lang c0 c1 c2 by (simp add: len err)
qed

text \<open>
  Claim C3 as stated fails: the same batch reports three results, each with the
  compilation error, and no single error for the batch.
\<close>

theorem compile_failure_single_error_counterexample:
  "map r_error (snd (executeTests noParse (\<lambda>i. missingSemicolonWorld) {}
     ''vector<vector<int>> threeSum(vector<int>& nums) { return {} }'' ''C++'' threeSumCases))
   = [Some ''Compilation failed: error: expected ';' before '}' token'',
      Some ''Compilation failed: error: expected ';' before '}' token'',
      Some ''Compilation failed: error: expected ';' before '}' token'']"
  by code_simp

section \<open>Temporary files\<close>

text \<open>
  Claim C6. Whatever the children do (success, a kill at the time limit, a crash, a
  failed spawn, a failed compilation), when the execution of one test case settles the
  temporary directory holds no file that it did not hold before; the source file that
  was written is gone, and so is the binary when the compiler produced one.
\<close>

theorem temporary_files_removed_on_every_exit_path:
  "fst (executeSingleTest parse dir w code language tc n) \<subseteq> dir \<and>
   (writeError w = None \<and> toLowerCase language = ''javascript'' \<longrightarrow>
      ''test_'' @ showNat (nowFile w) @ ''.js''
        \<notin> fst (executeSingleTest parse dir w code language tc n)) \<and>
   (writeError w = None \<and> toLowerCase language = ''python'' \<longrightarrow>
      ''test_'' @ showNat (nowFile w) @ ''.py''
        \<notin> fst (executeSingleTest parse dir w code language tc n)) \<and>
   (writeError w = None \<and> toLowerCase language = ''c++''
      \<and> \<not> isl (cppInputString (tc_input tc)) \<longrightarrow>
      ''test_'' @ showNat (nowFile w) @ ''.cpp''
        \<notin> fst (executeSingleTest parse dir w code language tc n) \<and>
      (compilationSucceeds w \<longrightarrow>
         ''test_'' @ showNat (nowExe w)
           \<notin> fst (executeSingleTest parse dir w code language tc n)))"
proof -
  have js: "fst (executeJavaScript parse dir w code tc) \<subseteq> dir \<and>
      (writeError w = None \<longrightarrow>
         ''test_'' @ showNat (nowFile w) @ ''.js'' \<notin> fst (executeJavaScript parse dir w code tc))"
    by (auto simp: executeJavaScript_def Let_def split: option.splits childEvent.splits)
  have py: "fst (executePython parse dir w code tc) \<subseteq> dir \<and>
      (writeError w = None \<longrightarrow>
         ''test_'' @ showNat (nowFile w) @ ''.py'' \<notin> fst (executePython parse dir w code tc))"
    by (auto simp: executePython_def Let_def split: option.splits childEvent.splits)
  have cpp: "fst (executeCpp dir w code tc) \<subseteq> dir \<and>
      (writeError w = None \<and> \<not> isl (cppInputString (tc_input tc)) \<longrightarrow>
         ''test_'' @ showNat (nowFile w) @ ''.cpp'' \<notin> fst (executeCpp dir w code tc) \<and>
         (compilationSucceeds w \<longrightarrow>
            ''test_'' @ showNat (nowExe w) \<notin> fst (executeCpp dir w code tc)))"
    by (auto simp: executeCpp_def compilationSucceeds_def Let_def
             split: option.splits childEvent.splits sum.splits)
  show ?thesis
    unfolding executeSingleTest_fst dispatchLanguage_def
    using js py cpp by simp
qed

text \<open>
  A C++ program killed at the time limit, in a directory that holds one other file.
\<close>

theorem temporary_files_removed_on_every_exit_path_witness:
  "fst (executeSingleTest noParse {''notes.txt''} timeoutWorld
     ''vector<vector<int>> threeSum(vector<int>& nums) { while (true); }'' ''C++''
     (threeSumCases ! 0) 1) \<subseteq> {''notes.txt''} \<and>
   compilationSucceeds timeoutWorld \<and>
   ''test_41.cpp'' \<notin> fst (executeSingleTest noParse {''notes.txt''} timeoutWorld
     ''vector<vector<int>> threeSum(vector<int>& nums) { while (true); }'' ''C++''
     (threeSumCases ! 0) 1) \<and>
   ''test_42'' \<notin> fst (executeSingleTest noParse {''notes.txt''} timeoutWorld
     ''vector<vector<int>> threeSum(vector<int>& nums) { while (true); }'' ''C++''
     (threeSumCases ! 0) 1)"
proof -
  have lang: "toLowerCase ''C++'' = ''c++''" by code_simp
  have w: "writeError timeoutWorld = None" by (simp add: timeoutWorld_def)
  have inp: "\<not> isl (cppInputString (tc_input (threeSumCases ! 0)))" by code_simp
  have ok: "compilationSucceeds timeoutWorld" by code_simp
  have n1: "''test_'' @ showNat (nowFile timeoutWorld) @ ''.cpp'' = ''test_41.cpp''" by code_simp
  have n2: "''test_'' @ showNat (nowExe timeoutWorld) = ''test_42''" by code_simp
  from temporary_files_removed_on_every_exit_path [of noParse "{''notes.txt''}" timeoutWorld
      "''vector<vector<int>> threeSum(vector<int>& nums) { while (true); }''" "''C++''"
      "threeSumCases ! 0" 1]
  show ?thesis using lang w inp ok unfolding n1 n2 by simp
qed


section \<open>String coercion of parsed output\<close>











section \<open>The hint rules\<close>

lemma startsWith_iff: "startsWith s p \<longleftrightarrow> (\<exists>post. s = p @ post)"
  by (induction s p rule: startsWith.induct) auto

lemma includes_str_iff: "includes_str s sub \<longleftrightarrow> (\<exists>pre post. s = pre @ sub @ post)"
proof (induction s)
  case Nil
  show ?case by (cases sub) auto
next
  case (Cons c cs)
  have "(\<exists>pre post. c # cs = pre @ sub @ post)
      \<longleftrightarrow> (\<exists>post. c # cs = sub @ post) \<or> (\<exists>pre post. cs = pre @ sub @ post)"
  proof
    assume "\<exists>pre post. c # cs = pre @ sub @ post"
    then obtain pre post where eq: "c # cs = pre @ sub @ post" by blast
    show "(\<exists>post. c # cs = sub @ post) \<or> (\<exists>pre post. cs = pre @ sub @ post)"
    proof (cases pre)
      case Nil
      with eq show ?thesis by auto
    next
      case (Cons a pre')
      with eq have "cs = pre' @ sub @ post" by simp
      then show ?thesis by blast
    qed
  next
    assume "(\<exists>post. c # cs = sub @ post) \<or> (\<exists>pre post. cs = pre @ sub @ post)"
    then show "\<exists>pre post. c # cs = pre @ sub @ post"
    proof
      assume "\<exists>post. c # cs = sub @ post"
      then obtain post where "c # cs = [] @ sub @ post" by auto
      then show ?thesis by blast
    next
      assume "\<exists>pre post. cs = pre @ sub @ post"
      then obtain pre post where "c # cs = (c # pre) @ sub @ post" by auto
      then show ?thesis by blast
    qed
  qed
  with Cons show ?case by (simp add: startsWith_iff)
qed

text \<open>
  Claim C10. The third rule of \<open>checkForHint\<close> holds exactly when the code contains
  \<open>for\<close> at least once and the tier is below 3: its three \<open>code.includes('for')\<close>
  are the same test. When it holds, \<open>checkForHint\<close> calls \<open>triggerHint\<close>. A single
  loop satisfies it, and so does the word \<open>performance\<close>.
\<close>

theorem nestedLoopRule_is_one_substring_test:
  "(nestedLoopRule s \<longleftrightarrow> (\<exists>pre post. editorCode s = pre @ ''for'' @ post) \<and> hintTier s < 3) \<and>
   (nestedLoopRule s \<longrightarrow> checkForHint now s = triggerHint s) \<and>
   nestedLoopRule (s\<lparr> editorCode := ''performance'' \<rparr>) = (hintTier s < 3) \<and>
   nestedLoopRule (s\<lparr> editorCode := ''for (int i = 0; i < n; i++) total += nums[i];'' \<rparr>)
     = (hintTier s < 3)"
proof -
  have a: "includes_str ''performance'' ''for''" by code_simp
  have b: "includes_str ''for (int i = 0; i < n; i++) total += nums[i];'' ''for''" by code_simp
  show ?thesis
    using a b by (auto simp: nestedLoopRule_def checkForHint_def includes_str_iff)
qed

text \<open>
  A comment that mentions performance, and no loop at all: the tier goes to 1.
\<close>

theorem nestedLoopRule_is_one_substring_test_witness:
  "nestedLoopRule (initialCandidateState\<lparr> editorCode := ''// tune performance'' \<rparr>) \<and>
   hintTier (checkForHint 0 (initialCandidateState\<lparr> editorCode := ''// tune performance'' \<rparr>)) = 1"
proof -
  let ?s = "initialCandidateState\<lparr> editorCode := ''// tune performance'' \<rparr>"
  have e: "editorCode ?s = ''// tune per'' @ ''for'' @ ''mance''" by simp
  have t: "hintTier ?s < 3" by (simp add: initialCandidateState_def)
  have h: "hintTier (triggerHint ?s) = 1" by code_simp
  from nestedLoopRule_is_one_substring_test [of ?s 0] e t h
  show ?thesis by (metis)
qed

section \<open>The hint tier\<close>

lemma generateHint_nonempty:
  assumes "current < length problems" "1 \<le> tier" "tier \<le> 3"
  shows "\<exists>h. generateHint current tier = Some h \<and> h \<noteq> []"
proof -
  have t1: "includes_str (p_title (problems ! 0)) ''3Sum''" by code_simp
  have t2: "\<not> includes_str (p_title (problems ! 1)) ''3Sum''" by code_simp
  have t3: "includes_str (p_title (problems ! 1)) ''Product of Array Except Self''" by code_simp
  have len: "length problems = 2" by (simp add: problems_def)
  from assms(1) len consider "current = 0" | "current = 1" by fastforce
  then show ?thesis
  proof cases
    case 1
    with assms t1 len show ?thesis by (simp add: generateHint_def Let_def)
  next
    case 2
    with assms t2 t3 len show ?thesis by (simp add: generateHint_def Let_def)
  qed
qed

lemma triggerHint_currentProblem [simp]: "currentProblem (triggerHint s) = currentProblem s"
  by (simp add: triggerHint_def Let_def split: option.splits)

lemma triggerHint_mono: "hintTier s \<le> hintTier (triggerHint s)"
  by (simp add: triggerHint_def Let_def split: option.splits)

lemma triggerHint_cap: "hintTier s \<le> 3 \<Longrightarrow> hintTier (triggerHint s) \<le> 3"
  by (simp add: triggerHint_def Let_def split: option.splits)

lemma triggerHint_at_cap: "hintTier s = 3 \<Longrightarrow> triggerHint s = s"
  by (simp add: triggerHint_def)

lemma triggerHint_increments:
  assumes "hintTier s < 3" "currentProblem s < length problems"
  shows "hintTier (triggerHint s) = hintTier s + 1"
proof -
  from generateHint_nonempty [OF assms(2), of "hintTier s + 1"] assms(1)
  obtain h where "generateHint (currentProblem s) (hintTier s + 1) = Some h" "h \<noteq> []"
    by auto
  with assms(1) show ?thesis by (simp add: triggerHint_def Let_def)
qed

lemma checkForHint_currentProblem [simp]: "currentProblem (checkForHint now s) = currentProblem s"
  by (simp add: checkForHint_def)

lemma checkForHint_mono: "hintTier s \<le> hintTier (checkForHint now s)"
  by (simp add: checkForHint_def triggerHint_mono)

lemma checkForHint_cap: "hintTier s \<le> 3 \<Longrightarrow> hintTier (checkForHint now s) \<le> 3"
  by (simp add: checkForHint_def triggerHint_cap)

lemma pageStep_invariant:
  assumes "hintTier s \<le> 3" "currentProblem s < length problems"
  shows "hintTier (pageStep e s) \<le> 3 \<and> currentProblem (pageStep e s) < length problems"
proof (cases e)
  case (MonitoringTick now)
  with assms show ?thesis by (simp add: checkForHint_cap)
next
  case StuckTimeout
  with assms show ?thesis by (auto simp: moveToNextProblem_def)
next
  case PreviousProblemClicked
  with assms show ?thesis by auto
next
  case (CodeEdited newCode flag now)
  with assms show ?thesis by simp
qed

lemma pageRun_invariant:
  assumes "hintTier s \<le> 3" "currentProblem s < length problems"
  shows "hintTier (pageRun es s) \<le> 3 \<and> currentProblem (pageRun es s) < length problems"
  using assms
proof (induction es arbitrary: s)
  case Nil
  then show ?case by simp
next
  case (Cons e es)
  from pageStep_invariant [OF Cons.prems, of e] Cons.IH [of "pageStep e s"]
  show ?case by simp
qed

lemma pageStep_tier_falls_only_on_advance:
  "currentProblem (pageStep e s) \<le> currentProblem s \<Longrightarrow> hintTier s \<le> hintTier (pageStep e s)"
  by (cases e) (auto simp: checkForHint_mono moveToNextProblem_def split: if_splits)

lemma pageStep_advance_resets:
  "currentProblem (pageStep e s) = currentProblem s + 1 \<Longrightarrow> hintTier (pageStep e s) = 0"
  by (cases e) (auto simp: moveToNextProblem_def split: if_splits)

text \<open>
  Claim C4. In every state \<open>s\<close> that the page can reach: the tier is at most 3; below
  3 a trigger raises it by exactly one, and at 3 a trigger changes nothing; a step that
  does not advance to the next problem never lowers the tier; and a step that advances
  to the next problem leaves the tier at 0.
\<close>

theorem hint_tier_monotone_capped_and_reset:
  assumes "s = pageRun es initialCandidateState"
  shows "hintTier s \<le> 3 \<and>
         (hintTier s < 3 \<longrightarrow> hintTier (triggerHint s) = hintTier s + 1) \<and>
         (hintTier s = 3 \<longrightarrow> triggerHint s = s) \<and>
         (currentProblem (pageStep e s) \<le> currentProblem s \<longrightarrow>
            hintTier s \<le> hintTier (pageStep e s)) \<and>
         (currentProblem (pageStep e s) = currentProblem s + 1 \<longrightarrow>
            hintTier (pageStep e s) = 0)"
proof -
  have init: "hintTier initialCandidateState \<le> 3"
             "currentProblem initialCandidateState < length problems"
    by (simp_all add: initialCandidateState_def problems_def)
  from pageRun_invariant [OF init, of es] assms
  have inv: "hintTier s \<le> 3" "currentProblem s < length problems" by simp_all
  show ?thesis
    using inv triggerHint_increments [of s] triggerHint_at_cap [of s]
      pageStep_tier_falls_only_on_advance [of e s] pageStep_advance_resets [of e s]
    by blast
qed

text \<open>
  One loop typed, one monitoring tick: tier 1; another trigger: tier 2; the stuck
  detector advances to the second problem: tier 0.
\<close>

theorem hint_tier_monotone_capped_and_reset_witness:
  "hintTier (pageRun [CodeEdited ''for (;;) {}'' False 1000, MonitoringTick 120000]
      initialCandidateState) = 1 \<and>
   hintTier (triggerHint (pageRun [CodeEdited ''for (;;) {}'' False 1000, MonitoringTick 120000]
      initialCandidateState)) = 2 \<and>
   hintTier (pageStep StuckTimeout
      (pageRun [CodeEdited ''for (;;) {}'' False 1000, MonitoringTick 120000]
         initialCandidateState)) = 0"
proof -
  let ?s = "pageRun [CodeEdited ''for (;;) {}'' False 1000, MonitoringTick 120000]
      initialCandidateState"
  have t: "hintTier ?s = 1" by code_simp
  have c: "currentProblem (pageStep StuckTimeout ?s) = currentProblem ?s + 1" by code_simp
  from hint_tier_monotone_capped_and_reset [OF refl, of
         "[CodeEdited ''for (;;) {}'' False 1000, MonitoringTick 120000]" StuckTimeout] t c
  show ?thesis by simp
qed

section \<open>The cooldown\<close>

lemma requestAIResponse_suppressed:
  assumes "lastAIResponseTime s = Some t" "now - t < twoMinutes"
  shows "requestAIResponse now s = (Suppressed, s)"
  using assms by (simp add: requestAIResponse_def canSendAIResponse_def Let_def)

lemma runTimers_last [simp]: "lastAIResponseTime (runTimers now s) = lastAIResponseTime s"
  by (simp add: runTimers_def)

lemma countdownTick_last [simp]: "lastAIResponseTime (countdownTick now s) = lastAIResponseTime s"
  by (simp add: countdownTick_def Let_def split: option.splits)

lemma runTimers_after_update:
  "now - t \<ge> twoMinutes \<Longrightarrow> \<not> aiResponseCooldown (runTimers now (updateAIResponseTime t s))"
  by (simp add: runTimers_def updateAIResponseTime_def twoMinutes_def)

lemma countdownTick_after_update:
  "now - t \<ge> twoMinutes \<Longrightarrow> \<not> aiResponseCooldown (countdownTick now (updateAIResponseTime t s))"
  by (simp add: countdownTick_def updateAIResponseTime_def Let_def)

text \<open>
  What \<open>canSendAIResponse\<close> does when it reads the current state: a request less than
  two minutes after the last dispatch is suppressed and changes nothing; after a dispatch
  at \<open>t\<close>, once the callbacks due by \<open>now\<close> have run, a request is dispatched exactly
  when at least two minutes have passed.
\<close>

lemma cooldown_on_current_state:
  "(lastAIResponseTime s = Some t \<and> now - t < twoMinutes \<longrightarrow>
      requestAIResponse now s = (Suppressed, s)) \<and>
   (fst (requestAIResponse t s) = Dispatched \<longrightarrow>
      lastAIResponseTime (snd (requestAIResponse t s)) = Some t \<and>
      fst (requestAIResponse now (runTimers now (snd (requestAIResponse t s))))
        = (if now - t < twoMinutes then Suppressed else Dispatched) \<and>
      fst (requestAIResponse now (countdownTick now (snd (requestAIResponse t s))))
        = (if now - t < twoMinutes then Suppressed else Dispatched))"
proof (intro conjI impI)
  assume "lastAIResponseTime s = Some t \<and> now - t < twoMinutes"
  then show "requestAIResponse now s = (Suppressed, s)"
    using requestAIResponse_suppressed by blast
next
  assume d: "fst (requestAIResponse t s) = Dispatched"
  then have s1: "snd (requestAIResponse t s) = updateAIResponseTime t s"
    by (simp add: requestAIResponse_def split: if_splits)
  show "lastAIResponseTime (snd (requestAIResponse t s)) = Some t"
    by (simp add: s1 updateAIResponseTime_def)
  have last: "lastAIResponseTime (updateAIResponseTime t s) = Some t"
    by (simp add: updateAIResponseTime_def)
  show "fst (requestAIResponse now (runTimers now (snd (requestAIResponse t s))))
        = (if now - t < twoMinutes then Suppressed else Dispatched)"
  proof (cases "now - t < twoMinutes")
    case True
    then show ?thesis
      using requestAIResponse_suppressed [of "runTimers now (updateAIResponseTime t s)" t now] last
      unfolding s1 by simp
  next
    case False
    then have "\<not> aiResponseCooldown (runTimers now (updateAIResponseTime t s))"
      by (simp add: runTimers_after_update)
    with False last show ?thesis
      unfolding s1 by (simp add: requestAIResponse_def canSendAIResponse_def Let_def)
  qed
  show "fst (requestAIResponse now (countdownTick now (snd (requestAIResponse t s))))
        = (if now - t < twoMinutes then Suppressed else Dispatched)"
  proof (cases "now - t < twoMinutes")
    case True
    then show ?thesis
      using requestAIResponse_suppressed [of "countdownTick now (updateAIResponseTime t s)" t now] last
      unfolding s1 by simp
  next
    case False
    then have "\<not> aiResponseCooldown (countdownTick now (updateAIResponseTime t s))"
      by (simp add: countdownTick_after_update)
    with False last show ?thesis
      unfolding s1 by (simp add: requestAIResponse_def canSendAIResponse_def Let_def)
  qed
qed

lemma cooldown_on_current_state_example:
  "fst (requestAIResponse 5000
      \<lparr> lastAIResponseTime = None, aiResponseCooldown = False, cooldownTimeLeft = 0,
        pendingClears = [] \<rparr>) = Dispatched \<and>
   fst (requestAIResponse 124999 (runTimers 124999 (snd (requestAIResponse 5000
      \<lparr> lastAIResponseTime = None, aiResponseCooldown = False, cooldownTimeLeft = 0,
        pendingClears = [] \<rparr>)))) = Suppressed \<and>
   fst (requestAIResponse 125000 (runTimers 125000 (snd (requestAIResponse 5000
      \<lparr> lastAIResponseTime = None, aiResponseCooldown = False, cooldownTimeLeft = 0,
        pendingClears = [] \<rparr>)))) = Dispatched"
proof -
  let ?s = "\<lparr> lastAIResponseTime = None, aiResponseCooldown = False, cooldownTimeLeft = 0,
        pendingClears = [] \<rparr>"
  have d: "fst (requestAIResponse 5000 ?s) = Dispatched"
    by (simp add: requestAIResponse_def canSendAIResponse_def)
  from cooldown_on_current_state [of ?s 5000 124999]
       cooldown_on_current_state [of ?s 5000 125000] d
  show ?thesis by (simp add: twoMinutes_def)
qed

text \<open>
  Claim C5 fails on the page as React runs it. First run: the code changes at time 0; the
  debounced request is dispatched at 5 s; the monitoring tick at 120 s, 115 s after
  that dispatch, still sees no last response and dispatches again. Second run: after the
  dispatch at 5 s the candidate types at 60 s (the request at 65 s is suppressed, as it
  should be) and at 122 s, when the cooldown flag is still set; the flag is cleared at
  125 s; the debounced request at 127 s, 122 s after the only dispatch, reads the flag it
  captured at 122 s and is suppressed.
\<close>

theorem stale_closure_defeats_cooldown:
  "fst (cooldownRun [CodeTyped 0, DebounceFires 5000, ClockAdvances 120000,
                     MonitoringFires 120000] initialCooldownPage)
     = [None, Some Dispatched, None, Some Dispatched] \<and>
   120000 - 5000 < twoMinutes \<and>
   fst (cooldownRun [CodeTyped 0, DebounceFires 5000, CodeTyped 60000, DebounceFires 65000,
                     CodeTyped 122000, ClockAdvances 125000, DebounceFires 127000]
          initialCooldownPage)
     = [None, Some Dispatched, None, Some Suppressed, None, None, Some Suppressed] \<and>
   127000 - 5000 \<ge> twoMinutes"
  by code_simp

section \<open>Short source\<close>

text \<open>
  Claim C7, as amended. For a \<open>code_change\<close> event whose source is absent or has fewer
  than 3 characters after trimming, the handler returns before the analyzer is called
  and emits no analysis result (only the error event when the lookup of the interview
  threw). The fixed default result, with score 0 and the feedback
  \<open>Start coding to see analysis\<close>, is what the analyzer itself returns for an absent or
  blank source.
\<close>

theorem short_source_is_skipped_without_a_result:
  "(code = None \<or> (\<exists>src. code = Some src \<and> length (trim src) < 3) \<longrightarrow>
      code_change_handler heuristics False code language = [] \<and>
      code_change_handler heuristics True code language = [ErrorMessage ''Failed to analyze code'']) \<and>
   (code = None \<or> (\<exists>src. code = Some src \<and> length (trim src) = 0) \<longrightarrow>
      analyzeCodeInRealTime heuristics code language = getEmptyCodeAnalysis) \<and>
   a_score getEmptyCodeAnalysis = 0 \<and>
   a_feedback getEmptyCodeAnalysis = ''Start coding to see analysis''"
  by (auto simp: code_change_handler_def analyzeCodeInRealTime_def getEmptyCodeAnalysis_def)

text \<open>
  Two characters between spaces reach no analysis; three spaces give the default.
\<close>

theorem short_source_is_skipped_without_a_result_witness:
  "length (trim '' ab '') < 3 \<and>
   code_change_handler sampleHeuristics False (Some '' ab '') ''javascript'' = [] \<and>
   length (trim ''   '') = 0 \<and>
   analyzeCodeInRealTime sampleHeuristics (Some ''   '') ''javascript'' = getEmptyCodeAnalysis"
proof -
  have a: "length (trim '' ab '') < 3" by code_simp
  have b: "length (trim ''   '') = 0" by code_simp
  from short_source_is_skipped_without_a_result [of "Some '' ab ''" sampleHeuristics "''javascript''"]
       short_source_is_skipped_without_a_result [of "Some ''   ''" sampleHeuristics "''javascript''"]
       a b
  show ?thesis by simp
qed

text \<open>
  Claim C7 as stated fails for the source \<open>ab\<close>: the handler emits nothing, and the
  analyzer, called on it, runs the heuristics.
\<close>

theorem short_source_default_result_counterexample:
  "length (trim ''ab'') < 3 \<and>
   code_change_handler sampleHeuristics False (Some ''ab'') ''javascript'' = [] \<and>
   analyzeCodeInRealTime sampleHeuristics (Some ''ab'') ''javascript'' \<noteq> getEmptyCodeAnalysis"
  by code_simp

section \<open>The overall score\<close>




lemma recordAnalysis_submissions [simp]:
  "codeSubmissions (recordAnalysis a s) = codeSubmissions s"
  by (simp add: recordAnalysis_def Let_def)

lemma recordAnalysis_overallScore [simp]:
  "overallScore (recordAnalysis a s) = overallScore s"
  by (simp add: recordAnalysis_def Let_def)








end
